theory Spec2Isabelle
  imports Complex_Main
begin

section \<open>Python and library primitives\<close>

text \<open>
  The engines compute on IEEE doubles; the embedding computes on \<open>real\<close>, so rounding,
  overflow (with the \<open>OverflowError\<close> of Python's \<open>**\<close>) and the values \<open>inf\<close> and \<open>nan\<close>
  are not represented: where numpy takes the logarithm of a non-positive number, the root
  of a negative one or divides by zero, the functions below have the value HOL gives, and
  only what is raised is meant there. The exceptions Python raises are values of
  \<open>error\<close>: \<open>ValueError\<close> is what the source raises by hand (the specification calls it
  InvalidParameter), \<open>ZeroDivisionError\<close> is what
  \<open>/\<close> raises on Python floats and ints when the divisor is zero (numpy scalars do not
  raise there, they warn and return \<open>inf\<close> or \<open>nan\<close>).
\<close>

datatype error = ValueError | ZeroDivisionError

text \<open>\<open>str.lower()\<close> on the ASCII letters; every other byte is kept.\<close>

definition lower_char :: "char \<Rightarrow> char" where
  "lower_char c =
     (case map_of (zip ''ABCDEFGHIJKLMNOPQRSTUVWXYZ'' ''abcdefghijklmnopqrstuvwxyz'') c of
        Some l \<Rightarrow> l
      | None \<Rightarrow> c)"

definition lower :: "string \<Rightarrow> string" where
  "lower s = map lower_char s"

text \<open>
  A \<open>for\<close> loop whose body may raise: the state is threaded through the iterations and
  the first error ends the loop.
\<close>

fun for_loop :: "'a list \<Rightarrow> ('s \<Rightarrow> 'a \<Rightarrow> error + 's) \<Rightarrow> 's \<Rightarrow> error + 's" where
  "for_loop [] body s = Inr s"
| "for_loop (x # xs) body s =
     (case body s x of Inl e \<Rightarrow> Inl e | Inr s' \<Rightarrow> for_loop xs body s')"

text \<open>
  \<open>scipy.stats.norm.pdf\<close> and \<open>scipy.stats.norm.cdf\<close> are library functions: the density
  of the standard normal distribution in closed form, and its distribution function as
  the power series of \<open>1/2 + (1/sqrt (2 pi)) * integral of exp (- t^2 / 2) from 0 to x\<close>,
  integrated term by term.
\<close>

definition norm_pdf :: "real \<Rightarrow> real" where
  "norm_pdf x = exp (- x\<^sup>2 / 2) / sqrt (2 * pi)"

definition cdf_term :: "real \<Rightarrow> nat \<Rightarrow> real" where
  "cdf_term x n = (- 1) ^ n * x ^ (2 * n + 1) / (fact n * 2 ^ n * real (2 * n + 1))"

definition norm_cdf :: "real \<Rightarrow> real" where
  "norm_cdf x = 1 / 2 + (\<Sum>n. cdf_term x n) / sqrt (2 * pi)"

section \<open>BlackScholesModel (models/black\_scholes.py)\<close>

record BlackScholesModel =
  bs_S :: real
  bs_K :: real
  bs_T :: real
  bs_r :: real
  bs_sigma :: real
  bs_option_type :: string

text \<open>\<open>__init__\<close>: stores the arguments, the option type in lower case. Nothing is checked.\<close>

definition BlackScholesModel_init ::
  "real \<Rightarrow> real \<Rightarrow> real \<Rightarrow> real \<Rightarrow> real \<Rightarrow> string \<Rightarrow> BlackScholesModel" where
  "BlackScholesModel_init S K T r sigma option_type =
     \<lparr>bs_S = S, bs_K = K, bs_T = T, bs_r = r, bs_sigma = sigma,
      bs_option_type = lower option_type\<rparr>"

text \<open>
  \<open>_calculate_d1_d2\<close>. \<open>self.S / self.K\<close> divides Python floats and raises when \<open>K\<close> is
  zero; the other operations are numpy's and never raise.
\<close>

definition bs_calculate_d1_d2 :: "BlackScholesModel \<Rightarrow> error + real \<times> real" where
  "bs_calculate_d1_d2 m =
     (if bs_K m = 0 then Inl ZeroDivisionError
      else
        let d1 = (ln (bs_S m / bs_K m) + (bs_r m + 0.5 * (bs_sigma m)\<^sup>2) * bs_T m)
                   / (bs_sigma m * sqrt (bs_T m));
            d2 = d1 - bs_sigma m * sqrt (bs_T m)
        in Inr (d1, d2))"

definition bs_price :: "BlackScholesModel \<Rightarrow> error + real" where
  "bs_price m =
     (case bs_calculate_d1_d2 m of
        Inl e \<Rightarrow> Inl e
      | Inr (d1, d2) \<Rightarrow>
          if bs_option_type m = ''call'' then
            Inr (bs_S m * norm_cdf d1 - bs_K m * exp (- bs_r m * bs_T m) * norm_cdf d2)
          else if bs_option_type m = ''put'' then
            Inr (bs_K m * exp (- bs_r m * bs_T m) * norm_cdf (- d2) - bs_S m * norm_cdf (- d1))
          else Inl ValueError)"







section \<open>BinomialTreeModel (models/binomial\_tree.py)\<close>

record BinomialTreeModel =
  bt_S :: real
  bt_K :: real
  bt_T :: real
  bt_r :: real
  bt_sigma :: real
  bt_steps :: nat
  bt_option_type :: string
  bt_exercise :: string
  bt_dt :: real
  bt_u :: real
  bt_d :: real
  bt_p :: real
  bt_discount :: real

text \<open>
  \<open>__init__\<close>. \<open>T / steps\<close> divides a Python float by an int and raises for zero steps;
  the step count is a natural number here (the source builds arrays of \<open>steps + 1\<close>
  rows). The tree parameters are numpy values, whose operations never raise.
\<close>

definition BinomialTreeModel_init ::
  "real \<Rightarrow> real \<Rightarrow> real \<Rightarrow> real \<Rightarrow> real \<Rightarrow> nat \<Rightarrow> string \<Rightarrow> string \<Rightarrow> error + BinomialTreeModel" where
  "BinomialTreeModel_init S K T r sigma steps option_type exercise =
     (if steps = 0 then Inl ZeroDivisionError
      else
        let dt = T / real steps;
            u = exp (sigma * sqrt dt);
            d = 1 / u;
            p = (exp (r * dt) - d) / (u - d);
            discount = exp (- r * dt)
        in Inr \<lparr>bt_S = S, bt_K = K, bt_T = T, bt_r = r, bt_sigma = sigma, bt_steps = steps,
                bt_option_type = lower option_type, bt_exercise = lower exercise,
                bt_dt = dt, bt_u = u, bt_d = d, bt_p = p, bt_discount = discount\<rparr>)"

text \<open>
  A two-dimensional numpy array, read and written at \<open>[j, i]\<close>; \<open>np.zeros\<close> is the
  constant function. The loops below never leave the \<open>(steps + 1) \<times> (steps + 1)\<close> range.
\<close>

type_synonym tree = "nat \<times> nat \<Rightarrow> real"

definition bt_build_stock_tree :: "BinomialTreeModel \<Rightarrow> tree" where
  "bt_build_stock_tree m =
     fold (\<lambda>i stock_tree.
             fold (\<lambda>j stock_tree.
                     stock_tree((j, i) := bt_S m * bt_u m ^ (i - j) * bt_d m ^ j))
                  [0..<i + 1] stock_tree)
          [0..<bt_steps m + 1] (\<lambda>_. 0)"

definition bt_calculate_option_value :: "BinomialTreeModel \<Rightarrow> real \<Rightarrow> error + real" where
  "bt_calculate_option_value m stock_price =
     (if bt_option_type m = ''call'' then Inr (max 0 (stock_price - bt_K m))
      else if bt_option_type m = ''put'' then Inr (max 0 (bt_K m - stock_price))
      else Inl ValueError)"

text \<open>The body of the first loop of \<open>price\<close>: the option value at maturity, row \<open>j\<close>.\<close>

definition bt_maturity_step :: "BinomialTreeModel \<Rightarrow> tree \<Rightarrow> tree \<Rightarrow> nat \<Rightarrow> error + tree" where
  "bt_maturity_step m stock_tree option_tree j =
     (case bt_calculate_option_value m (stock_tree (j, bt_steps m)) of
        Inl e \<Rightarrow> Inl e
      | Inr v \<Rightarrow> Inr (option_tree((j, bt_steps m) := v)))"

text \<open>The body of the backward induction of \<open>price\<close>, at column \<open>i\<close> and row \<open>j\<close>.\<close>

definition bt_backward_step ::
  "BinomialTreeModel \<Rightarrow> tree \<Rightarrow> nat \<Rightarrow> tree \<Rightarrow> nat \<Rightarrow> error + tree" where
  "bt_backward_step m stock_tree i option_tree j =
     (let option_tree = option_tree((j, i) :=
            bt_discount m * (bt_p m * option_tree (j, i + 1)
                             + (1 - bt_p m) * option_tree (j + 1, i + 1)))
      in if bt_exercise m = ''american'' then
           (case bt_calculate_option_value m (stock_tree (j, i)) of
              Inl e \<Rightarrow> Inl e
            | Inr exercise_value \<Rightarrow>
                Inr (option_tree((j, i) := max (option_tree (j, i)) exercise_value)))
         else Inr option_tree)"

definition bt_price :: "BinomialTreeModel \<Rightarrow> error + real" where
  "bt_price m =
     (let stock_tree = bt_build_stock_tree m;
          option_tree = (\<lambda>_. 0)
      in case for_loop [0..<bt_steps m + 1] (bt_maturity_step m stock_tree) option_tree of
           Inl e \<Rightarrow> Inl e
         | Inr option_tree \<Rightarrow>
             (case for_loop (rev [0..<bt_steps m])
                     (\<lambda>option_tree i.
                        for_loop [0..<i + 1] (bt_backward_step m stock_tree i) option_tree)
                     option_tree of
                Inl e \<Rightarrow> Inl e
              | Inr option_tree \<Rightarrow> Inr (option_tree (0, 0))))"

section \<open>MonteCarloModel (models/monte\_carlo.py)\<close>

text \<open>
  numpy's global generator is process-wide state, passed explicitly: its state is the
  stream of standard normal draws still to come. \<open>np.random.seed\<close> replaces the state by
  the stream of the seed; which stream a seed gives is numpy's business, so the function
  from seeds to streams is a parameter \<open>gen\<close> of the constructor.
  \<open>np.random.standard_normal n\<close> takes the next \<open>n\<close> draws.
\<close>

type_synonym rng = "nat \<Rightarrow> real"

definition standard_normal :: "nat \<Rightarrow> rng \<Rightarrow> real list \<times> rng" where
  "standard_normal n g = (map g [0..<n], \<lambda>k. g (k + n))"

text \<open>\<open>scipy.stats.norm.ppf\<close>, the inverse of \<open>norm.cdf\<close>.\<close>

definition norm_ppf :: "real \<Rightarrow> real" where
  "norm_ppf q = the_inv norm_cdf q"

record MonteCarloModel =
  mc_S :: real
  mc_K :: real
  mc_T :: real
  mc_r :: real
  mc_sigma :: real
  mc_simulations :: nat
  mc_option_type :: string
  mc_seed :: "nat option"

definition MonteCarloModel_init ::
  "(nat \<Rightarrow> rng) \<Rightarrow> real \<Rightarrow> real \<Rightarrow> real \<Rightarrow> real \<Rightarrow> real \<Rightarrow> nat \<Rightarrow> string \<Rightarrow> nat option \<Rightarrow> rng
     \<Rightarrow> MonteCarloModel \<times> rng" where
  "MonteCarloModel_init gen S K T r sigma simulations option_type seed g =
     (\<lparr>mc_S = S, mc_K = K, mc_T = T, mc_r = r, mc_sigma = sigma,
       mc_simulations = simulations, mc_option_type = lower option_type, mc_seed = seed\<rparr>,
      case seed of None \<Rightarrow> g | Some s \<Rightarrow> gen s)"

text \<open>
  The path array has one row per simulation and one column per time; \<open>paths[:, t]\<close> is a
  column. \<open>np.mean\<close> and \<open>np.std\<close> are the mean and the population standard deviation.
\<close>

definition get_col :: "nat \<Rightarrow> real list list \<Rightarrow> real list" where
  "get_col t paths = map (\<lambda>row. row ! t) paths"

definition set_col :: "nat \<Rightarrow> real list \<Rightarrow> real list list \<Rightarrow> real list list" where
  "set_col t col paths = map (\<lambda>(row, v). row[t := v]) (zip paths col)"

definition np_mean :: "real list \<Rightarrow> real" where
  "np_mean xs = sum_list xs / real (length xs)"

definition np_std :: "real list \<Rightarrow> real" where
  "np_std xs = sqrt (np_mean (map (\<lambda>x. \<bar>x - np_mean xs\<bar>\<^sup>2) xs))"

text \<open>
  \<open>_simulate_paths\<close>. \<open>self.T / steps\<close> raises for zero steps, before any draw. Each time
  step takes \<open>simulations\<close> draws from the global generator.
\<close>

definition mc_simulate_step :: "MonteCarloModel \<Rightarrow> real \<Rightarrow> nat \<Rightarrow> real list list \<times> rng \<Rightarrow> real list list \<times> rng" where
  "mc_simulate_step m dt t = (\<lambda>(paths, g).
     let (z, g) = standard_normal (mc_simulations m) g
     in (set_col t
           (map (\<lambda>(prev, z). prev * exp ((mc_r m - 0.5 * (mc_sigma m)\<^sup>2) * dt
                                          + mc_sigma m * sqrt dt * z))
                (zip (get_col (t - 1) paths) z))
           paths, g))"

definition mc_simulate_paths ::
  "MonteCarloModel \<Rightarrow> nat \<Rightarrow> rng \<Rightarrow> (error + real list list) \<times> rng" where
  "mc_simulate_paths m steps g =
     (if steps = 0 then (Inl ZeroDivisionError, g)
      else
        let dt = mc_T m / real steps;
            paths = replicate (mc_simulations m) (replicate (steps + 1) 0);
            paths = set_col 0 (replicate (mc_simulations m) (mc_S m)) paths;
            (paths, g) = fold (mc_simulate_step m dt) [1..<steps + 1] (paths, g)
        in (Inr paths, g))"

definition mc_price :: "MonteCarloModel \<Rightarrow> nat \<Rightarrow> rng \<Rightarrow> (error + real) \<times> rng" where
  "mc_price m steps g =
     (case mc_simulate_paths m steps g of
        (Inl e, g) \<Rightarrow> (Inl e, g)
      | (Inr paths, g) \<Rightarrow>
          let final_prices = get_col steps paths
          in if mc_option_type m = ''call'' then
               (Inr (exp (- mc_r m * mc_T m)
                     * np_mean (map (\<lambda>s. max (s - mc_K m) 0) final_prices)), g)
             else if mc_option_type m = ''put'' then
               (Inr (exp (- mc_r m * mc_T m)
                     * np_mean (map (\<lambda>s. max (mc_K m - s) 0) final_prices)), g)
             else (Inl ValueError, g))"

record confidence_result =
  cr_price :: real
  cr_std :: real
  cr_std_error :: real
  cr_lower_bound :: real
  cr_upper_bound :: real

definition mc_price_with_confidence ::
  "MonteCarloModel \<Rightarrow> nat \<Rightarrow> real \<Rightarrow> rng \<Rightarrow> (error + confidence_result) \<times> rng" where
  "mc_price_with_confidence m steps confidence g =
     (case mc_simulate_paths m steps g of
        (Inl e, g) \<Rightarrow> (Inl e, g)
      | (Inr paths, g) \<Rightarrow>
          let final_prices = get_col steps paths;
              payoffs = (if mc_option_type m = ''call''
                         then map (\<lambda>s. max (s - mc_K m) 0) final_prices
                         else map (\<lambda>s. max (mc_K m - s) 0) final_prices);
              discounted_payoffs = map (\<lambda>x. exp (- mc_r m * mc_T m) * x) payoffs;
              price = np_mean discounted_payoffs;
              std = np_std discounted_payoffs;
              std_error = std / sqrt (real (mc_simulations m));
              z_score = norm_ppf ((1 + confidence) / 2)
          in (Inr \<lparr>cr_price = price, cr_std = std, cr_std_error = std_error,
                    cr_lower_bound = price - z_score * std_error,
                    cr_upper_bound = price + z_score * std_error\<rparr>, g))"

text \<open>
  \<open>get_paths\<close> changes \<open>self.simulations\<close>, simulates, and restores it; the engine is
  returned with the result. When the simulation raises, the restoring line is not reached.
\<close>

definition mc_get_paths ::
  "MonteCarloModel \<Rightarrow> nat \<Rightarrow> nat \<Rightarrow> rng \<Rightarrow> (error + real list list) \<times> MonteCarloModel \<times> rng" where
  "mc_get_paths m num_paths steps g =
     (let original_simulations = mc_simulations m;
          m = m\<lparr>mc_simulations := num_paths\<rparr>
      in case mc_simulate_paths m steps g of
           (Inl e, g) \<Rightarrow> (Inl e, m, g)
         | (Inr paths, g) \<Rightarrow> (Inr paths, m\<lparr>mc_simulations := original_simulations\<rparr>, g))"

section \<open>OptionsAnalyzer (utils/analyzer.py)\<close>



record payoff_result =
  pd_spot_prices :: "real list"
  pd_payoff :: "real list"
  pd_profit_loss :: "real list"

text \<open>\<open>payoff_diagram\<close>; the numpy operations act on every element of \<open>S_range\<close>.\<close>

definition payoff_diagram ::
  "real list \<Rightarrow> real \<Rightarrow> real \<Rightarrow> string \<Rightarrow> string \<Rightarrow> payoff_result" where
  "payoff_diagram S_range K premium option_type position =
     (let payoff = (if option_type = ''call'' then map (\<lambda>s. max (s - K) 0) S_range
                    else map (\<lambda>s. max (K - s) 0) S_range)
      in if position = ''long'' then
           \<lparr>pd_spot_prices = S_range, pd_payoff = payoff,
            pd_profit_loss = map (\<lambda>x. x - premium) payoff\<rparr>
         else
           let payoff = map (\<lambda>x. - x) payoff;
               profit_loss = map (\<lambda>x. - x + premium) payoff
           in \<lparr>pd_spot_prices = S_range, pd_payoff = payoff, pd_profit_loss = profit_loss\<rparr>)"

text \<open>
  \<open>np.linspace start stop num\<close>: \<open>num\<close> values, the first one \<open>start\<close>, each step
  \<open>(stop - start) / (num - 1)\<close>.
\<close>

definition linspace :: "real \<Rightarrow> real \<Rightarrow> nat \<Rightarrow> real list" where
  "linspace start stop num =
     map (\<lambda>i. start + real i * ((stop - start) / real (num - 1))) [0..<num]"

record sensitivity_result =
  sa_parameter :: string
  sa_values :: "real list"
  sa_prices :: "real list"

text \<open>
  The body of the loop of \<open>sensitivity_analysis\<close>: one repricing, appended. (In a spot
  sweep the spot is a numpy value, so for \<open>K = 0\<close> the division \<open>S / K\<close> would not raise
  there; the sweep is used for \<open>K \<noteq> 0\<close> below.)
\<close>

definition sensitivity_step ::
  "(string \<rightharpoonup> real) \<Rightarrow> string \<Rightarrow> string \<Rightarrow> real list \<Rightarrow> real \<Rightarrow> error + real list" where
  "sensitivity_step base_values param_key option_type prices v =
     (let params = base_values(param_key \<mapsto> v);
          model = BlackScholesModel_init (the (params ''S'')) (the (params ''K''))
                    (the (params ''T'')) (the (params ''r'')) (the (params ''sigma''))
                    option_type
      in case bs_price model of
           Inl e \<Rightarrow> Inl e
         | Inr price \<Rightarrow> Inr (prices @ [price]))"

definition sensitivity_analysis ::
  "real \<Rightarrow> real \<Rightarrow> real \<Rightarrow> real \<Rightarrow> real \<Rightarrow> string \<Rightarrow> string \<Rightarrow> real \<Rightarrow> error + sensitivity_result" where
  "sensitivity_analysis S K T r sigma option_type parameter variation_range =
     (let base_values = [''S'' \<mapsto> S, ''K'' \<mapsto> K, ''T'' \<mapsto> T, ''r'' \<mapsto> r, ''sigma'' \<mapsto> sigma];
          param_map = [''spot'' \<mapsto> ''S'', ''volatility'' \<mapsto> ''sigma'', ''time'' \<mapsto> ''T'',
                       ''rate'' \<mapsto> ''r'']
      in case param_map parameter of
           None \<Rightarrow> Inl ValueError
         | Some param_key \<Rightarrow>
             let base_value = the (base_values param_key);
                 param_values =
                   (if parameter = ''time'' then
                      linspace (max 0.01 (base_value * (1 - variation_range)))
                        (base_value * (1 + variation_range)) 50
                    else
                      linspace (base_value * (1 - variation_range))
                        (base_value * (1 + variation_range)) 50)
             in case for_loop param_values (sensitivity_step base_values param_key option_type) [] of
                  Inl e \<Rightarrow> Inl e
                | Inr prices \<Rightarrow>
                    Inr \<lparr>sa_parameter = parameter, sa_values = param_values,
                         sa_prices = prices\<rparr>)"

section \<open>Callers and example inputs\<close>

text \<open>Constructing an engine and pricing with it, as the callers do.\<close>

definition binomial_price ::
  "real \<Rightarrow> real \<Rightarrow> real \<Rightarrow> real \<Rightarrow> real \<Rightarrow> nat \<Rightarrow> string \<Rightarrow> string \<Rightarrow> error + real" where
  "binomial_price S K T r sigma steps option_type exercise =
     (case BinomialTreeModel_init S K T r sigma steps option_type exercise of
        Inl e \<Rightarrow> Inl e
      | Inr m \<Rightarrow> bt_price m)"

text \<open>
  Two engines with the same parameters and seed, used one after the other or with both
  constructions before both pricing calls, as a caller would write them; the results of
  the two pricing calls are returned.
\<close>

definition mc_two_engines_sequential ::
  "(nat \<Rightarrow> rng) \<Rightarrow> real \<Rightarrow> real \<Rightarrow> real \<Rightarrow> real \<Rightarrow> real \<Rightarrow> nat \<Rightarrow> string \<Rightarrow> nat \<Rightarrow> nat \<Rightarrow> real \<Rightarrow> rng
     \<Rightarrow> (error + confidence_result) \<times> (error + confidence_result)" where
  "mc_two_engines_sequential gen S K T r sigma simulations option_type seed steps confidence g =
     (let (a, g) = MonteCarloModel_init gen S K T r sigma simulations option_type (Some seed) g;
          (result_a, g) = mc_price_with_confidence a steps confidence g;
          (b, g) = MonteCarloModel_init gen S K T r sigma simulations option_type (Some seed) g;
          (result_b, g) = mc_price_with_confidence b steps confidence g
      in (result_a, result_b))"

definition mc_two_engines_interleaved ::
  "(nat \<Rightarrow> rng) \<Rightarrow> real \<Rightarrow> real \<Rightarrow> real \<Rightarrow> real \<Rightarrow> real \<Rightarrow> nat \<Rightarrow> string \<Rightarrow> nat \<Rightarrow> nat \<Rightarrow> real \<Rightarrow> rng
     \<Rightarrow> (error + confidence_result) \<times> (error + confidence_result)" where
  "mc_two_engines_interleaved gen S K T r sigma simulations option_type seed steps confidence g =
     (let (a, g) = MonteCarloModel_init gen S K T r sigma simulations option_type (Some seed) g;
          (b, g) = MonteCarloModel_init gen S K T r sigma simulations option_type (Some seed) g;
          (result_a, g) = mc_price_with_confidence a steps confidence g;
          (result_b, g) = mc_price_with_confidence b steps confidence g
      in (result_a, result_b))"

text \<open>
  A stand-in for numpy's generator in the closed examples: whatever the seed, the first
  draw after seeding is \<open>1/2\<close> and the later ones are \<open>- 1/10\<close>. (numpy's first two
  draws after \<open>np.random.seed(42)\<close> differ likewise.) The generator state before any
  seeding is \<open>\<lambda>k. 0\<close> in the examples; it is overwritten by the seeding.
\<close>

definition example_gen :: "nat \<Rightarrow> rng" where
  "example_gen seed k = (if k = 0 then 1 / 2 else - 1 / 10)"

section \<open>The operations in the words of the specification\<close>

text \<open>
  The lattice in the words of the specification: the intrinsic value of a node, and the
  value \<open>V(j, i)\<close> of the node \<open>j\<close> of column \<open>i = steps - k\<close>, by recursion on the number
  \<open>k\<close> of columns between the node and maturity.
\<close>

definition bt_intrinsic :: "BinomialTreeModel \<Rightarrow> real \<Rightarrow> real" where
  "bt_intrinsic m stock_price =
     (if bt_option_type m = ''call'' then max 0 (stock_price - bt_K m)
      else max 0 (bt_K m - stock_price))"

fun lattice_value :: "BinomialTreeModel \<Rightarrow> tree \<Rightarrow> nat \<Rightarrow> nat \<Rightarrow> real" where
  "lattice_value m stock_tree 0 j = bt_intrinsic m (stock_tree (j, bt_steps m))"
| "lattice_value m stock_tree (Suc k) j =
     (let continuation = bt_discount m * (bt_p m * lattice_value m stock_tree k j
                                          + (1 - bt_p m) * lattice_value m stock_tree k (j + 1))
      in if bt_exercise m = ''american''
         then max continuation (bt_intrinsic m (stock_tree (j, bt_steps m - Suc k)))
         else continuation)"

text \<open>One node of the backward induction, from the values of its two successors.\<close>

definition node_value :: "BinomialTreeModel \<Rightarrow> tree \<Rightarrow> nat \<Rightarrow> nat \<Rightarrow> real \<Rightarrow> real \<Rightarrow> real" where
  "node_value m st i j up down =
     (let continuation = bt_discount m * (bt_p m * up + (1 - bt_p m) * down)
      in if bt_exercise m = ''american'' then max continuation (bt_intrinsic m (st (j, i)))
         else continuation)"




text \<open>
  The sweep, to compare \<open>sensitivity_analysis\<close> with: the model repriced at the value
  \<open>v\<close> of the swept parameter, and the two ends of the swept range (the lower end, and only
  it, is raised to 0.01 for the time to maturity).
\<close>

definition swept_model ::
  "real \<Rightarrow> real \<Rightarrow> real \<Rightarrow> real \<Rightarrow> real \<Rightarrow> string \<Rightarrow> string \<Rightarrow> real \<Rightarrow> BlackScholesModel" where
  "swept_model S K T r sigma option_type parameter v =
     (if parameter = ''spot'' then BlackScholesModel_init v K T r sigma option_type
      else if parameter = ''volatility'' then BlackScholesModel_init S K T r v option_type
      else if parameter = ''time'' then BlackScholesModel_init S K v r sigma option_type
      else BlackScholesModel_init S K T v sigma option_type)"

definition sweep_start :: "real \<Rightarrow> real \<Rightarrow> real \<Rightarrow> real \<Rightarrow> string \<Rightarrow> real \<Rightarrow> real" where
  "sweep_start S T r sigma parameter variation_range =
     (if parameter = ''spot'' then S * (1 - variation_range)
      else if parameter = ''volatility'' then sigma * (1 - variation_range)
      else if parameter = ''time'' then max 0.01 (T * (1 - variation_range))
      else r * (1 - variation_range))"

definition sweep_stop :: "real \<Rightarrow> real \<Rightarrow> real \<Rightarrow> real \<Rightarrow> string \<Rightarrow> real \<Rightarrow> real" where
  "sweep_stop S T r sigma parameter variation_range =
     (if parameter = ''spot'' then S * (1 + variation_range)
      else if parameter = ''volatility'' then sigma * (1 + variation_range)
      else if parameter = ''time'' then T * (1 + variation_range)
      else r * (1 + variation_range))"

section \<open>Facts about the library functions\<close>

lemma summable_cdf_term: "summable (cdf_term x)"
proof (rule summable_comparison_test')
  show "summable (\<lambda>n. \<bar>x\<bar> * (inverse (fact n) * (x\<^sup>2 / 2) ^ n))"
    by (rule summable_mult) (rule summable_exp)
next
  fix n :: nat
  assume "n \<ge> 0"
  have pw: "\<bar>x ^ (2 * n + 1)\<bar> = \<bar>x\<bar> * (x\<^sup>2) ^ n"
    by (simp add: power_mult abs_mult power_abs)
  have "norm (cdf_term x n) = \<bar>x ^ (2 * n + 1)\<bar> / (fact n * 2 ^ n * real (2 * n + 1))"
    by (simp add: cdf_term_def abs_mult power_abs del: power_Suc)
  also have "\<dots> = (\<bar>x\<bar> * (x\<^sup>2 / 2) ^ n / fact n) / real (2 * n + 1)"
    by (simp only: pw) (simp add: power_divide)
  also have "\<dots> \<le> (\<bar>x\<bar> * (x\<^sup>2 / 2) ^ n / fact n) / 1"
    by (intro divide_left_mono) simp_all
  finally show "norm (cdf_term x n) \<le> \<bar>x\<bar> * (inverse (fact n) * (x\<^sup>2 / 2) ^ n)"
    by (simp add: field_simps)
qed

lemma norm_cdf_minus: "norm_cdf (- x) = 1 - norm_cdf x"
proof -
  have "cdf_term (- x) = (\<lambda>n. - cdf_term x n)"
    by (rule ext) (simp add: cdf_term_def)
  then have "(\<Sum>n. cdf_term (- x) n) = - (\<Sum>n. cdf_term x n)"
    by (simp add: suminf_minus [OF summable_cdf_term])
  then show ?thesis by (simp add: norm_cdf_def)
qed


lemma norm_pdf_pos: "0 < norm_pdf x"
  by (simp add: norm_pdf_def)

lemma lower_call: "lower ''call'' = ''call''"
  by (simp add: lower_def lower_char_def)

lemma lower_put: "lower ''put'' = ''put''"
  by (simp add: lower_def lower_char_def)


section \<open>Black-Scholes: put-call parity\<close>

lemma bs_price_init:
  "K \<noteq> 0 \<Longrightarrow>
   bs_price (BlackScholesModel_init S K T r sigma kind) =
     (let d1 = (ln (S / K) + (r + 0.5 * sigma\<^sup>2) * T) / (sigma * sqrt T);
          d2 = d1 - sigma * sqrt T
      in if lower kind = ''call'' then Inr (S * norm_cdf d1 - K * exp (- r * T) * norm_cdf d2)
         else if lower kind = ''put'' then
           Inr (K * exp (- r * T) * norm_cdf (- d2) - S * norm_cdf (- d1))
         else Inl ValueError)"
  by (simp add: bs_price_def bs_calculate_d1_d2_def BlackScholesModel_init_def Let_def)

text \<open>
  C4. For a valid contract (\<open>S\<close>, \<open>K\<close>, \<open>T\<close>, \<open>sigma\<close> positive) the Black-Scholes call
  and put prices at the same parameters both exist, and the call price minus the put
  price is \<open>S - K * exp (- r * T)\<close>. Over the reals the identity is exact.
\<close>

theorem bs_put_call_parity:
  assumes "0 < S" and "0 < K" and "0 < T" and "0 < sigma"
  shows "case (bs_price (BlackScholesModel_init S K T r sigma ''call''),
               bs_price (BlackScholesModel_init S K T r sigma ''put'')) of
           (Inr c, Inr p) \<Rightarrow> c - p = S - K * exp (- r * T)
         | _ \<Rightarrow> False"
proof -
  from assms have K: "K \<noteq> 0" by simp
  show ?thesis
    by (simp add: bs_price_init [OF K] lower_call lower_put Let_def norm_cdf_minus
        algebra_simps)
qed

theorem bs_put_call_parity_witness:
  "(0::real) < 100 \<and> (0::real) < 95 \<and> (0::real) < 1 \<and> (0::real) < 0.2 \<and>
   (case (bs_price (BlackScholesModel_init 100 95 1 0.05 0.2 ''call''),
          bs_price (BlackScholesModel_init 100 95 1 0.05 0.2 ''put'')) of
      (Inr c, Inr p) \<Rightarrow> c - p = 100 - 95 * exp (- 0.05 * 1)
    | _ \<Rightarrow> False)"
  using bs_put_call_parity [of 100 95 1 "0.2" "0.05"] by simp


section \<open>Black-Scholes: the Greeks do not check the option kind\<close>



section \<open>Payoff diagram\<close>

text \<open>
  C1. The short position: for a short call with strike 100 and premium 5 at spot 120 the
  intrinsic value is 20, so the premium minus the intrinsic value is \<open>- 15\<close>. The source
  negates \<open>payoff\<close> and then computes \<open>- payoff + premium\<close> from the negated array: it
  returns the payoff \<open>- 20\<close> and the profit \<open>25\<close>, the premium plus the intrinsic value.
\<close>

theorem payoff_diagram_short_call_value:
  "payoff_diagram [120] 100 5 ''call'' ''short''
     = \<lparr>pd_spot_prices = [120], pd_payoff = [- 20], pd_profit_loss = [25]\<rparr>"
  by (simp add: payoff_diagram_def)

text \<open>The long position agrees with the example of the specification.\<close>

lemma payoff_diagram_long_call_value:
  "payoff_diagram [120, 80] 100 5 ''call'' ''long''
     = \<lparr>pd_spot_prices = [120, 80], pd_payoff = [20, 0], pd_profit_loss = [15, -5]\<rparr>"
  by (simp add: payoff_diagram_def)

section \<open>Sensitivity analysis\<close>

lemma for_loop_append:
  "(\<And>acc v. v \<in> set xs \<Longrightarrow> body acc v = Inr (acc @ [f v])) \<Longrightarrow>
   for_loop xs body acc = Inr (acc @ map f xs)"
  by (induction xs arbitrary: acc) simp_all

lemma length_linspace: "length (linspace start stop num) = num"
  by (simp add: linspace_def)

lemma nth_linspace:
  "i < num \<Longrightarrow> linspace start stop num ! i = start + real i * ((stop - start) / real (num - 1))"
  by (simp add: linspace_def)

lemma bs_price_isr:
  "K \<noteq> 0 \<Longrightarrow> lower kind = ''call'' \<or> lower kind = ''put'' \<Longrightarrow>
   \<exists>p. bs_price (BlackScholesModel_init S K T r sigma kind) = Inr p"
  by (auto simp add: bs_price_init Let_def)

lemma swept_price_isr:
  "K \<noteq> 0 \<Longrightarrow> lower kind = ''call'' \<or> lower kind = ''put'' \<Longrightarrow>
   \<exists>p. bs_price (swept_model S K T r sigma kind parameter v) = Inr p"
  unfolding swept_model_def by (auto dest: bs_price_isr)

lemma sensitivity_step_swept:
  assumes "parameter \<in> {''spot'', ''volatility'', ''time'', ''rate''}"
  shows "sensitivity_step [''S'' \<mapsto> S, ''K'' \<mapsto> K, ''T'' \<mapsto> T, ''r'' \<mapsto> r, ''sigma'' \<mapsto> sigma]
           (the ([''spot'' \<mapsto> ''S'', ''volatility'' \<mapsto> ''sigma'', ''time'' \<mapsto> ''T'',
                  ''rate'' \<mapsto> ''r''] parameter)) kind prices v
         = (case bs_price (swept_model S K T r sigma kind parameter v) of
              Inl e \<Rightarrow> Inl e
            | Inr price \<Rightarrow> Inr (prices @ [price]))"
  using assms by (auto simp add: sensitivity_step_def swept_model_def Let_def)

lemma sensitivity_analysis_known:
  assumes K: "K \<noteq> 0" and kind: "lower kind = ''call'' \<or> lower kind = ''put''"
    and par: "parameter \<in> {''spot'', ''volatility'', ''time'', ''rate''}"
  shows "sensitivity_analysis S K T r sigma kind parameter variation_range =
           Inr \<lparr>sa_parameter = parameter,
                sa_values = linspace (sweep_start S T r sigma parameter variation_range)
                              (sweep_stop S T r sigma parameter variation_range) 50,
                sa_prices = map (\<lambda>v. projr (bs_price (swept_model S K T r sigma kind parameter v)))
                              (linspace (sweep_start S T r sigma parameter variation_range)
                                 (sweep_stop S T r sigma parameter variation_range) 50)\<rparr>"
proof -
  let ?bv = "[''S'' \<mapsto> S, ''K'' \<mapsto> K, ''T'' \<mapsto> T, ''r'' \<mapsto> r, ''sigma'' \<mapsto> sigma]"
  let ?pm = "[''spot'' \<mapsto> ''S'', ''volatility'' \<mapsto> ''sigma'', ''time'' \<mapsto> ''T'', ''rate'' \<mapsto> ''r'']"
  let ?f = "\<lambda>v. projr (bs_price (swept_model S K T r sigma kind parameter v))"
  have step: "sensitivity_step ?bv (the (?pm parameter)) kind acc v = Inr (acc @ [?f v])"
    for acc v
  proof -
    from swept_price_isr [OF K kind] obtain p
      where "bs_price (swept_model S K T r sigma kind parameter v) = Inr p" by blast
    then show ?thesis
      by (simp only: sensitivity_step_swept [OF par]) simp
  qed
  have loop: "for_loop xs (sensitivity_step ?bv (the (?pm parameter)) kind) [] = Inr (map ?f xs)"
    for xs
    using for_loop_append [of xs "sensitivity_step ?bv (the (?pm parameter)) kind" ?f "[]"] step
    by simp
  from par consider "parameter = ''spot''" | "parameter = ''volatility''"
    | "parameter = ''time''" | "parameter = ''rate''" by auto
  then show ?thesis
  proof cases
    case 1
    with loop show ?thesis
      by (simp add: sensitivity_analysis_def sweep_start_def sweep_stop_def Let_def)
  next
    case 2
    with loop show ?thesis
      by (simp add: sensitivity_analysis_def sweep_start_def sweep_stop_def Let_def)
  next
    case 3
    with loop show ?thesis
      by (simp add: sensitivity_analysis_def sweep_start_def sweep_stop_def Let_def)
  next
    case 4
    with loop show ?thesis
      by (simp add: sensitivity_analysis_def sweep_start_def sweep_stop_def Let_def)
  qed
qed

lemma sensitivity_analysis_unknown:
  "parameter \<notin> {''spot'', ''volatility'', ''time'', ''rate''} \<Longrightarrow>
   sensitivity_analysis S K T r sigma kind parameter variation_range = Inl ValueError"
  by (simp add: sensitivity_analysis_def)

text \<open>
  C9, amended. For a contract with positive \<open>S\<close>, \<open>K\<close>, \<open>T\<close>, \<open>sigma\<close>, kind \<open>call\<close> or
  \<open>put\<close>, and a target among \<open>spot\<close>, \<open>volatility\<close>, \<open>time\<close>, \<open>rate\<close>, the sensitivity
  analysis returns 50 values and 50 prices; value \<open>i\<close> is \<open>start + i * (stop - start) / 49\<close>
  with \<open>stop = base * (1 + range)\<close> and \<open>start = base * (1 - range)\<close>, where for the time to
  maturity only this lower end is raised to at least 0.01; price \<open>i\<close> is the Black-Scholes
  price with the swept parameter set to value \<open>i\<close>. Every other target name fails with
  \<open>ValueError\<close>.
\<close>

theorem sensitivity_analysis_sweep:
  assumes "0 < S" and "0 < K" and "0 < T" and "0 < sigma"
    and "lower kind = ''call'' \<or> lower kind = ''put''"
  shows "(parameter \<in> {''spot'', ''volatility'', ''time'', ''rate''} \<longrightarrow>
            (case sensitivity_analysis S K T r sigma kind parameter variation_range of
               Inl e \<Rightarrow> False
             | Inr res \<Rightarrow>
                 sa_parameter res = parameter \<and>
                 length (sa_values res) = 50 \<and> length (sa_prices res) = 50 \<and>
                 (\<forall>i<50. sa_values res ! i =
                    sweep_start S T r sigma parameter variation_range
                    + real i * ((sweep_stop S T r sigma parameter variation_range
                                 - sweep_start S T r sigma parameter variation_range) / 49)) \<and>
                 (\<forall>i<50. bs_price (swept_model S K T r sigma kind parameter (sa_values res ! i))
                    = Inr (sa_prices res ! i)))) \<and>
         (parameter \<notin> {''spot'', ''volatility'', ''time'', ''rate''} \<longrightarrow>
            sensitivity_analysis S K T r sigma kind parameter variation_range = Inl ValueError)"
proof (intro conjI impI)
  assume par: "parameter \<in> {''spot'', ''volatility'', ''time'', ''rate''}"
  from assms have K: "K \<noteq> 0" by simp
  have pr: "bs_price (swept_model S K T r sigma kind parameter v)
            = Inr (projr (bs_price (swept_model S K T r sigma kind parameter v)))" for v
    using swept_price_isr [OF K assms(5), of S T r sigma parameter v] by auto
  show "case sensitivity_analysis S K T r sigma kind parameter variation_range of
          Inl e \<Rightarrow> False
        | Inr res \<Rightarrow>
            sa_parameter res = parameter \<and>
            length (sa_values res) = 50 \<and> length (sa_prices res) = 50 \<and>
            (\<forall>i<50. sa_values res ! i =
               sweep_start S T r sigma parameter variation_range
               + real i * ((sweep_stop S T r sigma parameter variation_range
                            - sweep_start S T r sigma parameter variation_range) / 49)) \<and>
            (\<forall>i<50. bs_price (swept_model S K T r sigma kind parameter (sa_values res ! i))
               = Inr (sa_prices res ! i))"
    using pr
    by (simp add: sensitivity_analysis_known [OF K assms(5) par] length_linspace nth_linspace)
next
  assume "parameter \<notin> {''spot'', ''volatility'', ''time'', ''rate''}"
  then show "sensitivity_analysis S K T r sigma kind parameter variation_range = Inl ValueError"
    by (rule sensitivity_analysis_unknown)
qed

text \<open>
  The claim as stated has every swept time value at least 0.01. For \<open>T = 0.005\<close> and
  range 0.2 the sweep runs from \<open>max 0.01 0.004 = 0.01\<close> down to \<open>0.006\<close>.
\<close>

theorem sensitivity_time_below_floor:
  "case sensitivity_analysis 100 100 0.005 0.05 0.2 ''call'' ''time'' 0.2 of
     Inl e \<Rightarrow> False
   | Inr res \<Rightarrow> sa_values res ! 0 = 0.01 \<and> sa_values res ! 49 = 0.006 \<and> sa_values res ! 49 < 0.01"
  by (simp add: sensitivity_analysis_known lower_call nth_linspace sweep_start_def sweep_stop_def)

theorem sensitivity_analysis_sweep_witness:
  "(0::real) < 100 \<and> (lower ''call'' = ''call'' \<or> lower ''call'' = ''put'') \<and>
   ''time'' \<in> {''spot'', ''volatility'', ''time'', ''rate''} \<and>
   ''gamma'' \<notin> {''spot'', ''volatility'', ''time'', ''rate''} \<and>
   (case sensitivity_analysis 100 100 1 0.05 0.2 ''call'' ''time'' 0.2 of
      Inl e \<Rightarrow> False
    | Inr res \<Rightarrow>
        length (sa_values res) = 50 \<and> length (sa_prices res) = 50 \<and>
        sa_values res ! 0 = 0.8 \<and> sa_values res ! 49 = 1.2 \<and>
        bs_price (BlackScholesModel_init 100 100 (sa_values res ! 49) 0.05 0.2 ''call'')
          = Inr (sa_prices res ! 49)) \<and>
   sensitivity_analysis 100 100 1 0.05 0.2 ''call'' ''gamma'' 0.2 = Inl ValueError"
proof -
  have k: "lower ''call'' = ''call'' \<or> lower ''call'' = ''put''"
    by (simp add: lower_call)
  have t: "''time'' \<in> {''spot'', ''volatility'', ''time'', ''rate''}" by simp
  have a: "case sensitivity_analysis 100 100 1 0.05 0.2 ''call'' ''time'' 0.2 of
      Inl e \<Rightarrow> False
    | Inr res \<Rightarrow>
        length (sa_values res) = 50 \<and> length (sa_prices res) = 50 \<and>
        sa_values res ! 0 = 0.8 \<and> sa_values res ! 49 = 1.2 \<and>
        bs_price (BlackScholesModel_init 100 100 (sa_values res ! 49) 0.05 0.2 ''call'')
          = Inr (sa_prices res ! 49)"
  proof (cases "sensitivity_analysis 100 100 1 0.05 0.2 ''call'' ''time'' 0.2")
    case (Inl e)
    with sensitivity_analysis_sweep [of 100 100 1 "0.2" "''call''" "''time''" "0.05" "0.2"] k
    show ?thesis by simp
  next
    case (Inr res)
    from sensitivity_analysis_sweep [of 100 100 1 "0.2" "''call''" "''time''" "0.05" "0.2"] k t
    have "case sensitivity_analysis 100 100 1 0.05 0.2 ''call'' ''time'' 0.2 of
            Inl e \<Rightarrow> False
          | Inr res \<Rightarrow>
              sa_parameter res = ''time'' \<and>
              length (sa_values res) = 50 \<and> length (sa_prices res) = 50 \<and>
              (\<forall>i<50. sa_values res ! i =
                 sweep_start 100 1 0.05 0.2 ''time'' 0.2
                 + real i * ((sweep_stop 100 1 0.05 0.2 ''time'' 0.2
                              - sweep_start 100 1 0.05 0.2 ''time'' 0.2) / 49)) \<and>
              (\<forall>i<50. bs_price (swept_model 100 100 1 0.05 0.2 ''call'' ''time''
                                   (sa_values res ! i)) = Inr (sa_prices res ! i))"
      by fastforce
    then have len: "length (sa_values res) = 50" "length (sa_prices res) = 50"
      and vals: "\<forall>i<50. sa_values res ! i =
                    sweep_start 100 1 0.05 0.2 ''time'' 0.2
                    + real i * ((sweep_stop 100 1 0.05 0.2 ''time'' 0.2
                                 - sweep_start 100 1 0.05 0.2 ''time'' 0.2) / 49)"
      and prices: "\<forall>i<50. bs_price (swept_model 100 100 1 0.05 0.2 ''call'' ''time''
                                        (sa_values res ! i)) = Inr (sa_prices res ! i)"
      unfolding Inr sum.case by blast+
    from vals have "sa_values res ! 0 = 0.8" "sa_values res ! 49 = 1.2"
      by (simp_all add: sweep_start_def sweep_stop_def)
    moreover from prices [rule_format, of 49] have
      "bs_price (BlackScholesModel_init 100 100 (sa_values res ! 49) 0.05 0.2 ''call'')
         = Inr (sa_prices res ! 49)"
      by (simp add: swept_model_def)
    ultimately show ?thesis using len Inr by simp
  qed
  have b: "sensitivity_analysis 100 100 1 0.05 0.2 ''call'' ''gamma'' 0.2 = Inl ValueError"
    using sensitivity_analysis_sweep [of 100 100 1 "0.2" "''call''" "''gamma''" "0.05" "0.2"] k
    by simp
  from a b k show ?thesis by simp
qed

section \<open>Monte Carlo: the global generator\<close>

lemma mc_simulate_step_rng:
  "snd (mc_simulate_step m dt t (paths, g)) = (\<lambda>k. g (k + mc_simulations m))"
  by (simp add: mc_simulate_step_def standard_normal_def Let_def)

lemma mc_simulate_fold_rng:
  "snd (fold (mc_simulate_step m dt) ts (paths, g))
     = (\<lambda>k. g (k + mc_simulations m * length ts))"
proof (induction ts arbitrary: paths g)
  case Nil
  then show ?case by simp
next
  case (Cons t ts)
  obtain paths' g' where st: "mc_simulate_step m dt t (paths, g) = (paths', g')"
    by (cases "mc_simulate_step m dt t (paths, g)")
  with mc_simulate_step_rng [of m dt t paths g]
  have g': "g' = (\<lambda>k. g (k + mc_simulations m))" by simp
  show ?case
    by (simp add: st Cons.IH) (simp add: g' ac_simps)
qed

lemma length_set_col: "length (set_col t col paths) = min (length paths) (length col)"
  by (simp add: set_col_def)

lemma mc_simulate_step_length:
  "length paths = mc_simulations m \<Longrightarrow>
   length (fst (mc_simulate_step m dt t (paths, g))) = mc_simulations m"
  by (simp add: mc_simulate_step_def standard_normal_def Let_def length_set_col get_col_def)

lemma mc_simulate_fold_length:
  "length paths = mc_simulations m \<Longrightarrow>
   length (fst (fold (mc_simulate_step m dt) ts (paths, g))) = mc_simulations m"
proof (induction ts arbitrary: paths g)
  case Nil
  then show ?case by simp
next
  case (Cons t ts)
  obtain paths' g' where st: "mc_simulate_step m dt t (paths, g) = (paths', g')"
    by (cases "mc_simulate_step m dt t (paths, g)")
  with mc_simulate_step_length [OF Cons.prems, of dt t g]
  have "length paths' = mc_simulations m" by simp
  then show ?case by (simp add: st Cons.IH)
qed

lemma mc_simulate_paths_ok:
  assumes "steps \<noteq> 0"
  shows "\<exists>paths. mc_simulate_paths m steps g
           = (Inr paths, \<lambda>k. g (k + mc_simulations m * steps))
         \<and> length paths = mc_simulations m"
proof -
  let ?p0 = "set_col 0 (replicate (mc_simulations m) (mc_S m))
               (replicate (mc_simulations m) (replicate (steps + 1) 0))"
  let ?r = "fold (mc_simulate_step m (mc_T m / real steps)) [1..<steps + 1] (?p0, g)"
  have len0: "length ?p0 = mc_simulations m" by (simp add: length_set_col)
  have "mc_simulate_paths m steps g = (Inr (fst ?r), snd ?r)"
    using assms by (simp add: mc_simulate_paths_def Let_def split_beta)
  moreover have "snd ?r = (\<lambda>k. g (k + mc_simulations m * length [1..<steps + 1]))"
    by (rule mc_simulate_fold_rng)
  moreover have "length [1..<steps + 1] = steps" by simp
  moreover have "length (fst ?r) = mc_simulations m"
    by (rule mc_simulate_fold_length [OF len0])
  ultimately show ?thesis by simp
qed




text \<open>
  C7, amended. For every seed and every contract, two engines constructed with that seed
  and the same parameters return equal results from \<open>price_with_confidence\<close> (price,
  standard deviation, standard error and both bounds) when each is priced right after its
  own construction, whatever the state of the global generator before.
\<close>

theorem mc_same_seed_sequential:
  "fst (mc_two_engines_sequential gen S K T r sigma simulations option_type seed steps confidence g)
     = snd (mc_two_engines_sequential gen S K T r sigma simulations option_type seed steps confidence g)"
  by (simp add: mc_two_engines_sequential_def MonteCarloModel_init_def split_beta Let_def)

lemma example_paths_first:
  "mc_simulate_paths \<lparr>mc_S = 100, mc_K = 100, mc_T = 1, mc_r = 0, mc_sigma = 1,
       mc_simulations = 1, mc_option_type = ''put'', mc_seed = Some 42\<rparr> 1 (example_gen 42)
     = (Inr [[100, 100]], \<lambda>k. example_gen 42 (k + 1))"
  by (simp add: mc_simulate_paths_def mc_simulate_step_def standard_normal_def set_col_def
      get_col_def example_gen_def Let_def)

lemma example_paths_second:
  "mc_simulate_paths \<lparr>mc_S = 100, mc_K = 100, mc_T = 1, mc_r = 0, mc_sigma = 1,
       mc_simulations = 1, mc_option_type = ''put'', mc_seed = Some 42\<rparr> 1
       (\<lambda>k. example_gen 42 (k + 1))
     = (Inr [[100, 100 * exp (- (3 / 5))]], \<lambda>k. example_gen 42 (k + 1 + 1))"
  by (simp add: mc_simulate_paths_def mc_simulate_step_def standard_normal_def set_col_def
      get_col_def example_gen_def Let_def)

theorem mc_same_seed_sequential_witness:
  "snd (mc_two_engines_sequential example_gen 100 100 1 0 1 1 ''put'' 42 1 0.95 (\<lambda>k. 0))
     = Inr \<lparr>cr_price = 0, cr_std = 0, cr_std_error = 0, cr_lower_bound = 0,
             cr_upper_bound = 0\<rparr>"
proof -
  have "fst (mc_two_engines_sequential example_gen 100 100 1 0 1 1 ''put'' 42 1 0.95 (\<lambda>k. 0))
     = Inr \<lparr>cr_price = 0, cr_std = 0, cr_std_error = 0, cr_lower_bound = 0,
             cr_upper_bound = 0\<rparr>"
    using example_paths_first
    by (simp add: mc_two_engines_sequential_def MonteCarloModel_init_def lower_put
        mc_price_with_confidence_def get_col_def np_mean_def np_std_def Let_def split_beta)
  with mc_same_seed_sequential [of example_gen 100 100 1 0 1 1 "''put''" 42 1 "0.95" "\<lambda>k. 0"]
  show ?thesis by simp
qed

text \<open>
  The claim as stated allows any interleaving. With both engines constructed before
  either is priced, the second pricing call continues the stream where the first stopped:
  for one path of one step (put, \<open>S = K = 100\<close>, \<open>T = 1\<close>, \<open>r = 0\<close>, \<open>sigma = 1\<close>) the first
  engine prices from the draw \<open>1/2\<close> and the second from the draw \<open>- 1/10\<close>.
\<close>

theorem mc_same_seed_interleaved_differ:
  "mc_two_engines_interleaved example_gen 100 100 1 0 1 1 ''put'' 42 1 0.95 (\<lambda>k. 0)
     = (Inr \<lparr>cr_price = 0, cr_std = 0, cr_std_error = 0, cr_lower_bound = 0,
              cr_upper_bound = 0\<rparr>,
        Inr \<lparr>cr_price = 100 - 100 * exp (- (3 / 5)), cr_std = 0, cr_std_error = 0,
              cr_lower_bound = 100 - 100 * exp (- (3 / 5)),
              cr_upper_bound = 100 - 100 * exp (- (3 / 5))\<rparr>)
   \<and> 100 - 100 * exp (- (3 / 5)) \<noteq> (0::real)"
  using example_paths_first example_paths_second
  by (simp add: mc_two_engines_interleaved_def MonteCarloModel_init_def lower_put
      mc_price_with_confidence_def get_col_def np_mean_def np_std_def Let_def)

text \<open>
  C8, amended. With at least one time step, \<open>get_paths\<close> returns \<open>num_paths\<close> paths and
  the engine with every field as before (the simulation count is restored), and it
  advances the global generator by \<open>num_paths * steps\<close> draws: a pricing call after it
  is the pricing call on that advanced generator.
\<close>

theorem mc_get_paths_effect:
  assumes "steps \<noteq> 0"
  shows "case mc_get_paths m num_paths steps g of
           (Inl e, m', g') \<Rightarrow> False
         | (Inr paths, m', g') \<Rightarrow>
             length paths = num_paths \<and> m' = m \<and>
             g' = (\<lambda>k. g (k + num_paths * steps)) \<and>
             mc_price m' steps' g' = mc_price m steps' (\<lambda>k. g (k + num_paths * steps))"
proof -
  from mc_simulate_paths_ok [OF assms, of "m\<lparr>mc_simulations := num_paths\<rparr>" g]
  obtain paths where
    "mc_simulate_paths (m\<lparr>mc_simulations := num_paths\<rparr>) steps g
       = (Inr paths, \<lambda>k. g (k + num_paths * steps))"
    and "length paths = num_paths"
    by auto
  then show ?thesis by (simp add: mc_get_paths_def Let_def)
qed

theorem mc_get_paths_effect_witness:
  "(2::nat) \<noteq> 0 \<and>
   (case mc_get_paths \<lparr>mc_S = 100, mc_K = 100, mc_T = 1, mc_r = 0, mc_sigma = 1,
            mc_simulations = 10, mc_option_type = ''put'', mc_seed = Some 42\<rparr> 3 2
           (example_gen 42) of
      (Inl e, m', g') \<Rightarrow> False
    | (Inr paths, m', g') \<Rightarrow>
        length paths = 3 \<and>
        m' = \<lparr>mc_S = 100, mc_K = 100, mc_T = 1, mc_r = 0, mc_sigma = 1,
              mc_simulations = 10, mc_option_type = ''put'', mc_seed = Some 42\<rparr> \<and>
        g' = (\<lambda>k. example_gen 42 (k + 3 * 2)) \<and>
        mc_price m' 1 g'
          = mc_price \<lparr>mc_S = 100, mc_K = 100, mc_T = 1, mc_r = 0, mc_sigma = 1,
              mc_simulations = 10, mc_option_type = ''put'', mc_seed = Some 42\<rparr> 1
              (\<lambda>k. example_gen 42 (k + 3 * 2)))"
  using mc_get_paths_effect [where steps = 2 and num_paths = 3 and g = "example_gen 42"
      and steps' = 1
      and m = "\<lparr>mc_S = 100, mc_K = 100, mc_T = 1, mc_r = 0, mc_sigma = 1,
              mc_simulations = 10, mc_option_type = ''put'', mc_seed = Some 42\<rparr>"]
  by simp

text \<open>
  The claim as stated has a later pricing call unaffected by \<open>get_paths\<close>. For the same
  engine, pricing right after construction uses the draw \<open>1/2\<close> and gives 0; pricing after
  \<open>get_paths\<close> of one path of one step uses the next draw.
\<close>

theorem mc_get_paths_changes_price:
  "(let (m, g) = MonteCarloModel_init example_gen 100 100 1 0 1 1 ''put'' (Some 42) (\<lambda>k. 0)
    in fst (mc_price m 1 g)) = Inr 0
   \<and> (let (m, g) = MonteCarloModel_init example_gen 100 100 1 0 1 1 ''put'' (Some 42) (\<lambda>k. 0);
           (paths, m, g) = mc_get_paths m 1 1 g
       in fst (mc_price m 1 g)) = Inr (100 - 100 * exp (- (3 / 5)))
   \<and> 100 - 100 * exp (- (3 / 5)) \<noteq> (0::real)"
  using example_paths_first example_paths_second
  by (simp add: MonteCarloModel_init_def lower_put mc_get_paths_def mc_price_def
      get_col_def np_mean_def Let_def)

section \<open>Binomial lattice: the loops compute the lattice recursion\<close>

lemma for_loop_app:
  "for_loop (xs @ ys) body s =
     (case for_loop xs body s of Inl e \<Rightarrow> Inl e | Inr s' \<Rightarrow> for_loop ys body s')"
  by (induction xs arbitrary: s) (simp_all split: sum.splits)

lemma bt_option_value_known:
  "bt_option_type m = ''call'' \<or> bt_option_type m = ''put'' \<Longrightarrow>
   bt_calculate_option_value m sp = Inr (bt_intrinsic m sp)"
  by (auto simp add: bt_calculate_option_value_def bt_intrinsic_def)


text \<open>The stock tree holds \<open>S * u ^ (i - j) * d ^ j\<close> at the nodes \<open>j \<le> i \<le> steps\<close>.\<close>

lemma stock_inner_fold:
  "fold (\<lambda>j tree. tree((j, i) := f j)) [0..<n] tree0
     = (\<lambda>(a, b). if b = i \<and> a < n then f a else tree0 (a, b))"
proof (induction n)
  case 0
  then show ?case by (simp add: fun_eq_iff)
next
  case (Suc n)
  then show ?case by (auto simp add: fun_eq_iff)
qed

lemma stock_outer_fold:
  "fold (\<lambda>i tree. fold (\<lambda>j tree. tree((j, i) := f i j)) [0..<i + 1] tree) [0..<n] tree0
     = (\<lambda>(a, b). if b < n \<and> a \<le> b then f b a else tree0 (a, b))"
proof -
  have inner: "(\<lambda>i tree. fold (\<lambda>j tree. tree((j, i) := f i j)) [0..<i + 1] tree)
                 = (\<lambda>i tree (a, b). if b = i \<and> a < i + 1 then f i a else tree (a, b))"
    by (simp only: stock_inner_fold)
  show ?thesis
    unfolding inner
  proof (induction n)
    case 0
    then show ?case by (simp add: fun_eq_iff)
  next
    case (Suc n)
    then show ?case by (auto simp add: fun_eq_iff)
  qed
qed

lemma bt_stock_tree_node:
  "bt_build_stock_tree m (j, i)
     = (if i \<le> bt_steps m \<and> j \<le> i then bt_S m * bt_u m ^ (i - j) * bt_d m ^ j else 0)"
  unfolding bt_build_stock_tree_def
  by (simp only: stock_outer_fold) auto

text \<open>The first loop of \<open>price\<close> fills the last column.\<close>

lemma bt_maturity_loop:
  assumes "bt_option_type m = ''call'' \<or> bt_option_type m = ''put''"
  shows "for_loop [0..<n] (bt_maturity_step m st) ot
           = Inr (\<lambda>(a, b). if b = bt_steps m \<and> a < n then bt_intrinsic m (st (a, bt_steps m))
                            else ot (a, b))"
proof (induction n)
  case 0
  then show ?case by (simp add: fun_eq_iff)
next
  case (Suc n)
  then show ?case
    by (auto simp add: for_loop_app bt_maturity_step_def bt_option_value_known [OF assms]
        fun_eq_iff)
qed


lemma bt_backward_step_known:
  assumes "bt_option_type m = ''call'' \<or> bt_option_type m = ''put''"
  shows "bt_backward_step m st i ot j
           = Inr (ot((j, i) := node_value m st i j (ot (j, i + 1)) (ot (j + 1, i + 1))))"
  by (simp add: bt_backward_step_def node_value_def Let_def bt_option_value_known [OF assms])

lemma bt_backward_column:
  assumes "bt_option_type m = ''call'' \<or> bt_option_type m = ''put''"
  shows "for_loop [0..<n] (bt_backward_step m st i) ot
           = Inr (\<lambda>(a, b). if b = i \<and> a < n
                            then node_value m st i a (ot (a, i + 1)) (ot (a + 1, i + 1))
                            else ot (a, b))"
proof (induction n)
  case 0
  then show ?case by (simp add: fun_eq_iff)
next
  case (Suc n)
  then show ?case
    by (auto simp add: for_loop_app bt_backward_step_known [OF assms] fun_eq_iff)
qed

lemma lattice_value_node:
  "k < bt_steps m \<Longrightarrow> i = bt_steps m - Suc k \<Longrightarrow>
   lattice_value m st (Suc k) j
     = node_value m st i j (lattice_value m st k j) (lattice_value m st k (j + 1))"
  by (simp add: node_value_def Let_def)

lemma bt_backward_loop:
  assumes kind: "bt_option_type m = ''call'' \<or> bt_option_type m = ''put''"
    and n: "n \<le> bt_steps m"
    and inv: "\<And>i j. n \<le> i \<Longrightarrow> i \<le> bt_steps m \<Longrightarrow> j \<le> i \<Longrightarrow>
                ot (j, i) = lattice_value m st (bt_steps m - i) j"
  shows "\<exists>ot'. for_loop (rev [0..<n])
                  (\<lambda>ot i. for_loop [0..<i + 1] (bt_backward_step m st i) ot) ot = Inr ot'
               \<and> (\<forall>i j. i \<le> bt_steps m \<longrightarrow> j \<le> i \<longrightarrow>
                     ot' (j, i) = lattice_value m st (bt_steps m - i) j)"
  using n inv
proof (induction n arbitrary: ot)
  case 0
  then show ?case by simp
next
  case (Suc n)
  let ?col = "\<lambda>(a, b). if b = n \<and> a < n + 1
                then node_value m st n a (ot (a, n + 1)) (ot (a + 1, n + 1))
                else ot (a, b)"
  have col: "for_loop [0..<n + 1] (bt_backward_step m st n) ot = Inr ?col"
    by (rule bt_backward_column [OF kind])
  have inv': "?col (j, i) = lattice_value m st (bt_steps m - i) j"
    if "n \<le> i" "i \<le> bt_steps m" "j \<le> i" for i j
  proof (cases "i = n")
    case True
    have k: "bt_steps m - n = Suc (bt_steps m - Suc n)" using Suc.prems(1) by simp
    have up: "ot (j, n + 1) = lattice_value m st (bt_steps m - Suc n) j"
      using Suc.prems(2) [of "Suc n" j] Suc.prems(1) that True by simp
    have down: "ot (j + 1, n + 1) = lattice_value m st (bt_steps m - Suc n) (j + 1)"
      using Suc.prems(2) [of "Suc n" "Suc j"] Suc.prems(1) that True by simp
    have "lattice_value m st (bt_steps m - n) j
            = node_value m st n j (lattice_value m st (bt_steps m - Suc n) j)
                (lattice_value m st (bt_steps m - Suc n) (j + 1))"
      unfolding k using Suc.prems(1) by (intro lattice_value_node) simp_all
    with up down True that show ?thesis by simp
  next
    case False
    with that have "Suc n \<le> i" by simp
    with Suc.prems(2) [of i j] that False show ?thesis by simp
  qed
  from Suc.prems(1) have "n \<le> bt_steps m" by simp
  from Suc.IH [OF this, of ?col] inv'
  obtain ot' where "for_loop (rev [0..<n])
       (\<lambda>ot i. for_loop [0..<i + 1] (bt_backward_step m st i) ot) ?col = Inr ot'"
    and "\<forall>i j. i \<le> bt_steps m \<longrightarrow> j \<le> i \<longrightarrow> ot' (j, i) = lattice_value m st (bt_steps m - i) j"
    by blast
  with col show ?case by simp
qed

lemma bt_price_lattice_value:
  assumes kind: "bt_option_type m = ''call'' \<or> bt_option_type m = ''put''"
  shows "bt_price m = Inr (lattice_value m (bt_build_stock_tree m) (bt_steps m) 0)"
proof -
  let ?st = "bt_build_stock_tree m"
  let ?ot1 = "\<lambda>(a, b). if b = bt_steps m \<and> a < bt_steps m + 1
                then bt_intrinsic m (?st (a, bt_steps m)) else (0::real)"
  have mat: "for_loop [0..<bt_steps m + 1] (bt_maturity_step m ?st) (\<lambda>_. 0) = Inr ?ot1"
    by (rule bt_maturity_loop [OF kind])
  have "\<exists>ot'. for_loop (rev [0..<bt_steps m])
                  (\<lambda>ot i. for_loop [0..<i + 1] (bt_backward_step m ?st i) ot) ?ot1 = Inr ot'
               \<and> (\<forall>i j. i \<le> bt_steps m \<longrightarrow> j \<le> i \<longrightarrow>
                     ot' (j, i) = lattice_value m ?st (bt_steps m - i) j)"
    by (rule bt_backward_loop [OF kind]) auto
  then obtain ot' where
    bwd: "for_loop (rev [0..<bt_steps m])
             (\<lambda>ot i. for_loop [0..<i + 1] (bt_backward_step m ?st i) ot) ?ot1 = Inr ot'"
    and val: "\<forall>i j. i \<le> bt_steps m \<longrightarrow> j \<le> i \<longrightarrow>
                ot' (j, i) = lattice_value m ?st (bt_steps m - i) j"
    by blast
  from val have "ot' (0, 0) = lattice_value m ?st (bt_steps m) 0" by simp
  with mat bwd show ?thesis by (simp add: bt_price_def Let_def)
qed


section \<open>Binomial lattice: American against European exercise\<close>

lemma lower_american: "lower ''american'' = ''american''"
  by (simp add: lower_def lower_char_def)

lemma lower_european: "lower ''european'' = ''european''"
  by (simp add: lower_def lower_char_def)

lemma lattice_value_exercise_mono:
  assumes "bt_option_type a = bt_option_type e" and "bt_K a = bt_K e"
    and "bt_steps a = bt_steps e" and "bt_p a = bt_p e" and "bt_discount a = bt_discount e"
    and "bt_exercise a = ''american''" and "bt_exercise e \<noteq> ''american''"
    and "0 \<le> bt_p e" and "bt_p e \<le> 1" and "0 \<le> bt_discount e"
  shows "lattice_value e st k j \<le> lattice_value a st k j"
proof (induction k arbitrary: j)
  case 0
  from assms(1-3) show ?case by (simp add: bt_intrinsic_def)
next
  case (Suc k)
  have "bt_p e * lattice_value e st k j + (1 - bt_p e) * lattice_value e st k (j + 1)
          \<le> bt_p e * lattice_value a st k j + (1 - bt_p e) * lattice_value a st k (j + 1)"
    using assms(8,9) Suc.IH [of j] Suc.IH [of "j + 1"]
    by (intro add_mono mult_left_mono) simp_all
  then have "bt_discount e * (bt_p e * lattice_value e st k j
                              + (1 - bt_p e) * lattice_value e st k (j + 1))
          \<le> bt_discount e * (bt_p e * lattice_value a st k j
                              + (1 - bt_p e) * lattice_value a st k (j + 1))"
    using assms(10) by (rule mult_left_mono)
  with assms(4-7) show ?case by (simp add: Let_def)
qed

lemma bt_p_bounds:
  assumes T: "0 < T" and sigma: "0 < sigma" and steps: "steps \<noteq> 0"
    and rate: "\<bar>r\<bar> * sqrt (T / real steps) \<le> sigma"
  defines "dt \<equiv> T / real steps"
  defines "u \<equiv> exp (sigma * sqrt dt)"
  shows "0 \<le> (exp (r * dt) - 1 / u) / (u - 1 / u)"
    and "(exp (r * dt) - 1 / u) / (u - 1 / u) \<le> 1"
proof -
  have dt: "0 < dt" using T steps by (simp add: dt_def)
  then have s: "0 < sqrt dt" by simp
  have dts: "dt = sqrt dt * sqrt dt" using dt by simp
  have inv: "1 / exp (sigma * sqrt dt) = exp (- (sigma * sqrt dt))"
    by (simp add: exp_minus field_simps)
  have "0 < sigma * sqrt dt" using sigma s by simp
  then have den: "0 < u - 1 / u" unfolding u_def inv by simp
  have "\<bar>r * dt\<bar> = (\<bar>r\<bar> * sqrt dt) * sqrt dt"
    using dts dt by (simp add: abs_mult)
  also have "\<dots> \<le> sigma * sqrt dt"
    using rate s by (intro mult_right_mono) (simp_all add: dt_def)
  finally have b: "\<bar>r * dt\<bar> \<le> sigma * sqrt dt" .
  then have "exp (r * dt) \<le> u" "1 / u \<le> exp (r * dt)"
    unfolding u_def inv by simp_all
  with den show "0 \<le> (exp (r * dt) - 1 / u) / (u - 1 / u)"
    and "(exp (r * dt) - 1 / u) / (u - 1 / u) \<le> 1"
    by simp_all
qed

text \<open>
  C6, amended. For every put with positive \<open>S\<close>, \<open>K\<close>, \<open>T\<close>, \<open>sigma\<close>, every step count
  \<open>N \<ge> 1\<close> and every rate with \<open>\<bar>r\<bar> * sqrt (T / N) \<le> sigma\<close> (which puts the risk-neutral
  probability \<open>p\<close> in \<open>[0, 1]\<close>), both lattice prices exist and the price with American
  exercise is at least the price with European exercise.
\<close>

theorem american_put_ge_european:
  assumes "0 < S" and "0 < K" and "0 < T" and "0 < sigma" and "1 \<le> steps"
    and "\<bar>r\<bar> * sqrt (T / real steps) \<le> sigma"
  shows "case (binomial_price S K T r sigma steps ''put'' ''american'',
               binomial_price S K T r sigma steps ''put'' ''european'') of
           (Inr american, Inr european) \<Rightarrow> european \<le> american
         | _ \<Rightarrow> False"
proof -
  from assms(5) have steps: "steps \<noteq> 0" by simp
  define dt where "dt = T / real steps"
  define u where "u = exp (sigma * sqrt dt)"
  define p where "p = (exp (r * dt) - 1 / u) / (u - 1 / u)"
  define mk where "mk = (\<lambda>ex. \<lparr>bt_S = S, bt_K = K, bt_T = T, bt_r = r, bt_sigma = sigma,
     bt_steps = steps, bt_option_type = ''put'', bt_exercise = ex, bt_dt = dt, bt_u = u,
     bt_d = 1 / u, bt_p = p, bt_discount = exp (- r * dt)\<rparr>)"
  have init: "BinomialTreeModel_init S K T r sigma steps ''put'' ex = Inr (mk (lower ex))" for ex
    using steps
    by (simp add: BinomialTreeModel_init_def Let_def mk_def p_def u_def dt_def lower_put)
  have st: "bt_build_stock_tree (mk ''american'') = bt_build_stock_tree (mk ''european'')"
    by (simp add: bt_build_stock_tree_def mk_def)
  have p0: "0 \<le> p" and p1: "p \<le> 1"
    using bt_p_bounds [OF assms(3,4) steps assms(6)] by (simp_all add: p_def u_def dt_def)
  have "lattice_value (mk ''european'') (bt_build_stock_tree (mk ''european'')) steps 0
          \<le> lattice_value (mk ''american'') (bt_build_stock_tree (mk ''european'')) steps 0"
    using p0 p1 by (intro lattice_value_exercise_mono) (simp_all add: mk_def)
  moreover have "bt_price (mk ''american'')
      = Inr (lattice_value (mk ''american'') (bt_build_stock_tree (mk ''american'')) steps 0)"
    using bt_price_lattice_value [of "mk ''american''"] by (simp add: mk_def)
  moreover have "bt_price (mk ''european'')
      = Inr (lattice_value (mk ''european'') (bt_build_stock_tree (mk ''european'')) steps 0)"
    using bt_price_lattice_value [of "mk ''european''"] by (simp add: mk_def)
  ultimately show ?thesis
    by (simp add: binomial_price_def init lower_american lower_european st)
qed

lemma lattice_value_one:
  "lattice_value m st 1 j
     = node_value m st (bt_steps m - 1) j (bt_intrinsic m (st (j, bt_steps m)))
         (bt_intrinsic m (st (Suc j, bt_steps m)))"
  by (simp add: node_value_def Let_def)

lemma lattice_value_two:
  "lattice_value m st 2 j
     = node_value m st (bt_steps m - 2) j (lattice_value m st 1 j) (lattice_value m st 1 (Suc j))"
  by (simp add: numeral_2_eq_2 node_value_def Let_def)

theorem american_put_ge_european_witness:
  "(0::real) < 100 \<and> (0::real) < 2 \<and> (0::real) < 0.2 \<and> (1::nat) \<le> 2 \<and>
   \<bar>0.05\<bar> * sqrt (2 / real (2::nat)) \<le> (0.2::real) \<and>
   (case (binomial_price 100 100 2 0.05 0.2 2 ''put'' ''american'',
          binomial_price 100 100 2 0.05 0.2 2 ''put'' ''european'') of
      (Inr american, Inr european) \<Rightarrow> european \<le> american
    | _ \<Rightarrow> False)"
  using american_put_ge_european [of 100 100 2 "0.2" 2 "0.05"] by simp

text \<open>
  The claim as stated covers every rate. For \<open>S = K = 100\<close>, \<open>T = 2\<close>, \<open>sigma = 0.1\<close>, two
  steps and \<open>r = 1\<close> the probability \<open>p\<close> is above 1, the weight \<open>1 - p\<close> of the lower node
  is negative, and exercising early there lowers the root value: the American price is 0
  and the European price is positive.
\<close>

theorem american_put_below_european:
  "binomial_price 100 100 2 1 0.1 2 ''put'' ''american'' = Inr 0 \<and>
   (case binomial_price 100 100 2 1 0.1 2 ''put'' ''european'' of
      Inl e \<Rightarrow> False
    | Inr european \<Rightarrow> 0 < european)"
proof -
  define u :: real where "u = exp (1 / 10)"
  define p where "p = (exp 1 - 1 / u) / (u - 1 / u)"
  define mk where "mk = (\<lambda>ex. \<lparr>bt_S = 100, bt_K = 100, bt_T = 2, bt_r = 1, bt_sigma = 1 / 10,
     bt_steps = 2, bt_option_type = ''put'', bt_exercise = ex, bt_dt = 1, bt_u = u,
     bt_d = 1 / u, bt_p = p, bt_discount = exp (- 1)\<rparr>)"
  have init: "BinomialTreeModel_init 100 100 2 1 0.1 2 ''put'' ex = Inr (mk (lower ex))" for ex
    by (simp add: BinomialTreeModel_init_def Let_def mk_def p_def u_def lower_put)
  have u1: "1 < u" by (simp add: u_def)
  then have u0: "0 < u" by simp
  have d1: "1 / u < 1" using u1 by simp
  have "u < exp 1" by (simp add: u_def)
  moreover from d1 u1 have "1 / u < u" by (rule less_trans)
  ultimately have "u - 1 / u < exp 1 - 1 / u" "0 < u - 1 / u" by simp_all
  then have p1: "1 < p" by (simp add: p_def)
  have uu: "1 < u * u" using u1 by (simp add: less_1_mult)
  have dd: "1 / (u * u) < 1" using uu by simp
  have st: "bt_build_stock_tree (mk ex) (0, 0) = 100"
    "bt_build_stock_tree (mk ex) (0, 1) = 100 * u"
    "bt_build_stock_tree (mk ex) (1, 1) = 100 / u"
    "bt_build_stock_tree (mk ex) (0, 2) = 100 * (u * u)"
    "bt_build_stock_tree (mk ex) (1, 2) = 100"
    "bt_build_stock_tree (mk ex) (2, 2) = 100 / (u * u)" for ex
    using u0 by (simp_all add: bt_stock_tree_node mk_def power2_eq_square)
  have intr: "bt_intrinsic (mk ex) (bt_build_stock_tree (mk ex) (0, 0)) = 0"
    "bt_intrinsic (mk ex) (bt_build_stock_tree (mk ex) (0, 1)) = 0"
    "bt_intrinsic (mk ex) (bt_build_stock_tree (mk ex) (1, 1)) = 100 - 100 / u"
    "bt_intrinsic (mk ex) (bt_build_stock_tree (mk ex) (0, 2)) = 0"
    "bt_intrinsic (mk ex) (bt_build_stock_tree (mk ex) (1, 2)) = 0"
    "bt_intrinsic (mk ex) (bt_build_stock_tree (mk ex) (2, 2)) = 100 - 100 / (u * u)" for ex
    unfolding st using u1 d1 uu dd u0
    by (simp_all add: bt_intrinsic_def mk_def max_def field_simps)
  have sel: "bt_steps (mk ex) = 2" "bt_p (mk ex) = p" "bt_discount (mk ex) = exp (- 1)"
    "bt_exercise (mk ex) = ex" "bt_option_type (mk ex) = ''put''" for ex
    by (simp_all add: mk_def)
  have x: "0 < 100 - 100 / (u * u)" using dd by simp
  have y: "0 < 100 - 100 / u" using d1 by simp
  have neg: "(1 - p) * (100 - 100 / (u * u)) < 0" "(1 - p) * (100 - 100 / u) < 0"
    using p1 x y by (simp_all add: mult_neg_pos)
  have dneg: "exp (- 1) * ((1 - p) * (100 - 100 / (u * u))) < 0"
    "exp (- 1) * ((1 - p) * (100 - 100 / u)) < 0"
    using neg by (simp_all add: mult_pos_neg)
  let ?e = "mk ''european''"
  have e1: "lattice_value ?e (bt_build_stock_tree ?e) 1 0 = 0"
    "lattice_value ?e (bt_build_stock_tree ?e) 1 (Suc 0)
       = exp (- 1) * ((1 - p) * (100 - 100 / (u * u)))"
    using intr [of "''european''"]
    by (simp_all only: lattice_value_one) (simp_all add: numeral_2_eq_2 node_value_def sel)
  have "lattice_value ?e (bt_build_stock_tree ?e) 2 0
       = node_value ?e (bt_build_stock_tree ?e) (bt_steps ?e - 2) 0 0
           (exp (- 1) * ((1 - p) * (100 - 100 / (u * u))))"
    by (simp only: lattice_value_two e1)
  then have e2: "lattice_value ?e (bt_build_stock_tree ?e) 2 0
       = exp (- 1) * ((1 - p) * (exp (- 1) * ((1 - p) * (100 - 100 / (u * u)))))"
    by (simp add: node_value_def sel)
  have epos: "0 < exp (- 1) * ((1 - p) * (exp (- 1) * ((1 - p) * (100 - 100 / (u * u)))))"
  proof -
    have "0 < (1 - p) * (1 - p)" using p1 by (simp add: mult_neg_neg)
    then have "0 < (1 - p) * (1 - p) * (100 - 100 / (u * u))"
      using x by (rule mult_pos_pos)
    moreover have "0 < exp (- 1) * exp (- 1 :: real)" by simp
    ultimately have "0 < exp (- 1) * exp (- 1) * ((1 - p) * (1 - p) * (100 - 100 / (u * u)))"
      by (rule mult_pos_pos [rotated])
    then show ?thesis by (simp add: mult_ac)
  qed
  let ?a = "mk ''american''"
  have a1: "lattice_value ?a (bt_build_stock_tree ?a) 1 0 = 0"
    "lattice_value ?a (bt_build_stock_tree ?a) 1 (Suc 0) = 100 - 100 / u"
    using intr [of "''american''"] dneg y
    by (simp_all only: lattice_value_one)
      (simp_all add: numeral_2_eq_2 node_value_def sel max_def)
  have "lattice_value ?a (bt_build_stock_tree ?a) 2 0
       = node_value ?a (bt_build_stock_tree ?a) (bt_steps ?a - 2) 0 0 (100 - 100 / u)"
    by (simp only: lattice_value_two a1)
  then have a2: "lattice_value ?a (bt_build_stock_tree ?a) 2 0 = 0"
    using intr(1) [of "''american''"] dneg by (simp add: node_value_def sel max_def)
  have "bt_price ?a = Inr 0"
    using bt_price_lattice_value [of ?a] a2 by (simp add: sel)
  moreover have "bt_price ?e
      = Inr (exp (- 1) * ((1 - p) * (exp (- 1) * ((1 - p) * (100 - 100 / (u * u))))))"
    using bt_price_lattice_value [of ?e] e2 by (simp add: sel)
  ultimately show ?thesis
    using epos by (simp add: binomial_price_def init lower_american lower_european)
qed

section \<open>No engine checks the ranges of its inputs\<close>






section \<open>Unknown option kinds\<close>




section \<open>Implied volatility\<close>











end
